theory Spec2Isabelle
  imports Complex_Main
begin

section \<open>Errors raised by the code\<close>

text \<open>
  Every exception that the modelled functions can let through is a value of this type:
  \<^item> \<open>ValueError\<close>: the enum class rejects a value that no member carries;
  \<^item> \<open>NotIntArray\<close>: \<open>json.loads\<close> did not yield a list of integers (the text is not JSON,
    or it is JSON of another shape, which \<open>approve_and_pay\<close> never writes);
  \<^item> \<open>DoesNotExist\<close>: \<open>StripeCustomerModel.objects.get\<close> found no row;
  \<^item> \<open>TemplateDoesNotExist\<close>, \<open>TemplateSyntaxError\<close>: raised by \<open>loader.get_template\<close>;
  \<^item> \<open>ReError\<close>: \<open>re.match\<close> rejects the pattern;
  \<^item> \<open>PatternNotModelled\<close>: the pattern lies outside the fragment of regular
    expressions that \<open>re_match\<close> below interprets.
\<close>

datatype error =
    ValueError
  | NotIntArray
  | DoesNotExist
  | TemplateDoesNotExist
  | TemplateSyntaxError
  | ReError
  | PatternNotModelled

section \<open>Decimal currency values\<close>

text \<open>
  Modelled from the spec: \<open>CurrencyField\<close> (\<open>htk.fields\<close>) is not among the sources; the
  spec calls \<open>unit_cost\<close> a fixed-point currency value. A value is a Python \<open>Decimal\<close>: an
  integer coefficient and an exponent, standing for \<open>coefficient * 10 ^ exponent\<close>.
  \<open>Decimal('19.99')\<close> is \<open>Decimal 1999 (-2)\<close>.
\<close>

datatype decimal = Decimal (coefficient: int) (exponent: int)

definition decimal_val :: "decimal \<Rightarrow> rat" where
  "decimal_val d =
     (if 0 \<le> exponent d then of_int (coefficient d) * 10 ^ nat (exponent d)
      else of_int (coefficient d) / 10 ^ nat (- exponent d))"

text \<open>\<open>Decimal * int\<close>: the integer is the decimal with exponent 0; coefficients multiply,
  exponents add.\<close>

definition decimal_mul_int :: "decimal \<Rightarrow> int \<Rightarrow> decimal" where
  "decimal_mul_int d n = Decimal (coefficient d * n) (exponent d)"

text \<open>\<open>Decimal + Decimal\<close>: both operands are brought to the smaller exponent.\<close>

definition decimal_add :: "decimal \<Rightarrow> decimal \<Rightarrow> decimal" where
  "decimal_add a b =
     (let e = min (exponent a) (exponent b)
      in Decimal (coefficient a * 10 ^ nat (exponent a - e)
                  + coefficient b * 10 ^ nat (exponent b - e)) e)"

section \<open>The billing models (apps/cpq/models.py)\<close>

subsection \<open>Line items\<close>

record line_item =
  name :: string
  description :: string
  unit_cost :: decimal
  quantity :: nat

text \<open>\<open>BaseCPQLineItem.get_amount\<close>.\<close>

definition get_amount :: "line_item \<Rightarrow> decimal" where
  "get_amount self = decimal_mul_int (unit_cost self) (int (quantity self))"

subsection \<open>The abstract quote and its three subclasses\<close>

text \<open>
  \<open>AbstractCPQQuote\<close> is the base record; \<open>BaseCPQGroupQuote\<close>, \<open>BaseCPQQuote\<close> and
  \<open>BaseCPQInvoice\<close> extend it. \<open>line_items\<close> is the reverse relation of the line items'
  foreign key, read as a list; the field \<open>notes\<close> is \<open>notes_text\<close> here and \<open>id\<close>
  is \<open>pk\<close>. A foreign key that may be null is an \<open>option\<close>; the customer a quote
  points to is passed to the functions that read or write it.
\<close>

record abstract_cpq_quote =
  pk :: int
  date :: string
  notes_text :: string
  line_items :: "line_item list"

record cpq_group_quote = abstract_cpq_quote +
  organization :: string

record cpq_quote = abstract_cpq_quote +
  group_quote :: "cpq_group_quote option"

record cpq_invoice = abstract_cpq_quote +
  invoice_type :: nat
  paid :: bool
  payment_terms :: nat

text \<open>\<open>AbstractCPQQuote.get_notes\<close> and \<open>AbstractCPQQuote.get_line_items\<close>.\<close>

definition abstract_get_notes :: "'a abstract_cpq_quote_scheme \<Rightarrow> string" where
  "abstract_get_notes self = notes_text self"

definition abstract_get_line_items :: "'a abstract_cpq_quote_scheme \<Rightarrow> line_item list" where
  "abstract_get_line_items self = line_items self"

text \<open>
  \<open>AbstractCPQQuote.get_total\<close>. The loop \<open>for line_item in line_items: subtotal +=
  line_item.get_amount()\<close> with its accumulator; the initial \<open>subtotal = 0\<close> is the
  integer 0, written \<open>Decimal 0 0\<close>. \<open>self.get_line_items()\<close> is dispatched on the class
  of \<open>self\<close>, so the method is a parameter.
\<close>

fun total_loop :: "decimal \<Rightarrow> line_item list \<Rightarrow> decimal" where
  "total_loop subtotal [] = subtotal"
| "total_loop subtotal (line_item # rest) =
     total_loop (decimal_add subtotal (get_amount line_item)) rest"

definition get_total_via :: "('q \<Rightarrow> line_item list) \<Rightarrow> 'q \<Rightarrow> decimal" where
  "get_total_via get_line_items_method self = total_loop (Decimal 0 0) (get_line_items_method self)"

text \<open>\<open>BaseCPQQuote.use_group_quote\<close>, \<open>get_notes\<close>, \<open>get_line_items\<close>.\<close>

definition use_group_quote :: "cpq_quote \<Rightarrow> bool" where
  "use_group_quote self = (group_quote self \<noteq> None \<and> \<not> (line_items self \<noteq> []))"

definition get_notes :: "cpq_quote \<Rightarrow> string" where
  "get_notes self =
     (if use_group_quote self
      then (case group_quote self of Some g \<Rightarrow> abstract_get_notes g | None \<Rightarrow> notes_text self)
      else notes_text self)"

definition get_line_items :: "cpq_quote \<Rightarrow> line_item list" where
  "get_line_items self =
     (if use_group_quote self
      then (case group_quote self of Some g \<Rightarrow> abstract_get_line_items g | None \<Rightarrow> line_items self)
      else line_items self)"

text \<open>\<open>get_total\<close> as inherited by a quote and by a group quote.\<close>

definition get_total :: "cpq_quote \<Rightarrow> decimal" where
  "get_total = get_total_via get_line_items"

definition group_quote_get_total :: "cpq_group_quote \<Rightarrow> decimal" where
  "group_quote_get_total = get_total_via abstract_get_line_items"

text \<open>
  Creating and deleting a line item of a quote (the ORM's \<open>create\<close> and \<open>delete\<close> on
  \<open>BaseCPQQuoteLineItem\<close>): the reverse relation gains or loses the row.
\<close>

definition add_line_item :: "cpq_quote \<Rightarrow> line_item \<Rightarrow> cpq_quote" where
  "add_line_item q li = q\<lparr>line_items := line_items q @ [li]\<rparr>"

definition remove_line_item :: "cpq_quote \<Rightarrow> line_item \<Rightarrow> cpq_quote" where
  "remove_line_item q li = q\<lparr>line_items := remove1 li (line_items q)\<rparr>"

section \<open>Integers as text, and JSON lists of integers\<close>

text \<open>
  \<open>'%s' % n\<close> and \<open>json.dumps\<close> write an integer in decimal, with a minus sign when it
  is negative and no leading zero.
\<close>

definition digit_char :: "nat \<Rightarrow> char" where
  "digit_char d = char_of (48 + d)"

definition is_digit :: "char \<Rightarrow> bool" where
  "is_digit c = (48 \<le> (of_char c :: nat) \<and> (of_char c :: nat) \<le> 57)"

definition digit_val :: "char \<Rightarrow> nat" where
  "digit_val c = of_char c - 48"

fun str_nat :: "nat \<Rightarrow> string" where
  "str_nat n = (if n < 10 then [digit_char n] else str_nat (n div 10) @ [digit_char (n mod 10)])"

definition str_int :: "int \<Rightarrow> string" where
  "str_int i = (if i < 0 then CHR ''-'' # str_nat (nat (- i)) else str_nat (nat i))"

text \<open>
  \<open>json.dumps\<close> of a list of integers: the items separated by a comma and a space,
  between brackets.
\<close>

fun join :: "string \<Rightarrow> string list \<Rightarrow> string" where
  "join sep [] = []"
| "join sep [x] = x"
| "join sep (x # y # ys) = x @ sep @ join sep (y # ys)"

definition json_dumps :: "int list \<Rightarrow> string" where
  "json_dumps xs = ''['' @ join '', '' (map str_int xs) @ '']''"

text \<open>
  \<open>json.loads\<close> on the texts that stand for a list of integers: white space is allowed
  around the brackets, the commas and the numbers; a number is an optional minus sign and
  digits with no leading zero. Any other text gives \<open>NotIntArray\<close>.
\<close>

definition is_ws :: "char \<Rightarrow> bool" where
  "is_ws c = (c = CHR '' '' \<or> c = CHR 0x09 \<or> c = CHR 0x0A \<or> c = CHR 0x0D)"

definition strip :: "string \<Rightarrow> string" where
  "strip s = rev (dropWhile is_ws (rev (dropWhile is_ws s)))"

fun split_on :: "char \<Rightarrow> string \<Rightarrow> string list" where
  "split_on d [] = [[]]"
| "split_on d (c # cs) =
     (if c = d then [] # split_on d cs
      else (case split_on d cs of [] \<Rightarrow> [[c]] | p # ps \<Rightarrow> (c # p) # ps))"

definition parse_nat :: "string \<Rightarrow> nat" where
  "parse_nat s = foldl (\<lambda>a c. 10 * a + digit_val c) 0 s"

definition parse_digits :: "string \<Rightarrow> nat option" where
  "parse_digits s =
     (if s = [] \<or> \<not> list_all is_digit s then None
      else if 1 < length s \<and> hd s = CHR ''0'' then None
      else Some (parse_nat s))"

definition parse_int :: "string \<Rightarrow> int option" where
  "parse_int s =
     (case s of
        [] \<Rightarrow> None
      | c # r \<Rightarrow>
          (if c = CHR ''-'' then map_option (\<lambda>n. - int n) (parse_digits r)
           else map_option int (parse_digits s)))"

definition json_loads :: "string \<Rightarrow> error + int list" where
  "json_loads s =
     (let t = strip s in
      if 2 \<le> length t \<and> hd t = CHR ''['' \<and> last t = CHR '']'' then
        (let body = strip (butlast (tl t)) in
         if body = [] then Inr []
         else
           (let items = map (\<lambda>piece. parse_int (strip piece)) (split_on CHR '','' body) in
            if list_all (\<lambda>item. item \<noteq> None) items then Inr (map the items)
            else Inl NotIntArray))
      else Inl NotIntArray)"

section \<open>Payments of a quote\<close>

text \<open>
  Modelled from the spec: the customer model with \<open>get_attribute\<close> and \<open>set_attribute\<close>
  is not among the sources; the spec describes an attribute bag, a serialized value
  stored under a key against the customer. \<open>get_attribute\<close> of a key never set is
  \<open>None\<close>.
\<close>

record customer =
  attributes :: "string \<rightharpoonup> string"

definition get_attribute :: "customer \<Rightarrow> string \<Rightarrow> string option" where
  "get_attribute c key = attributes c key"

definition set_attribute :: "customer \<Rightarrow> string \<Rightarrow> string \<Rightarrow> customer" where
  "set_attribute c key v = c\<lparr>attributes := (attributes c)(key \<mapsto> v)\<rparr>"

text \<open>The key \<open>'quote_%s_payments' % self.id\<close>.\<close>

definition payments_key :: "cpq_quote \<Rightarrow> string" where
  "payments_key self = ''quote_'' @ str_int (pk self) @ ''_payments''"

text \<open>
  \<open>BaseCPQQuote.get_payments\<close>: \<open>json.loads(payments) if payments else []\<close>, where
  \<open>None\<close> and the empty text are false.
\<close>

definition get_payments :: "customer \<Rightarrow> cpq_quote \<Rightarrow> error + int list" where
  "get_payments c self =
     (let key = payments_key self; payments = get_attribute c key in
      case payments of
        None \<Rightarrow> Inr []
      | Some text \<Rightarrow> (if text = [] then Inr [] else json_loads text))"

text \<open>
  \<open>BaseCPQQuote.approve_and_pay\<close>, the spec's \<open>record_payment\<close>: it returns the
  customer with the attribute rewritten, or the error of \<open>get_payments\<close>.
\<close>

record stripe_charge =
  amount :: int
  amount_refunded :: int

record stripe_customer =
  stripe_id :: int
  charges :: "stripe_charge list"

definition approve_and_pay :: "customer \<Rightarrow> cpq_quote \<Rightarrow> stripe_customer \<Rightarrow> error + customer" where
  "approve_and_pay c self sc =
     (case get_payments c self of
        Inl e \<Rightarrow> Inl e
      | Inr payments \<Rightarrow>
          (let payments' = payments @ [stripe_id sc]; key = payments_key self in
           Inr (set_attribute c key (json_dumps payments'))))"

text \<open>Paying several times in a row; the first failure ends the run.\<close>

fun approve_and_pay_all :: "customer \<Rightarrow> cpq_quote \<Rightarrow> stripe_customer list \<Rightarrow> error + customer" where
  "approve_and_pay_all c self [] = Inr c"
| "approve_and_pay_all c self (sc # rest) =
     (case approve_and_pay c self sc of
        Inl e \<Rightarrow> Inl e
      | Inr c' \<Rightarrow> approve_and_pay_all c' self rest)"

text \<open>
  \<open>StripeCustomerModel.objects.get(id=...)\<close> over the table of Stripe customers, and the
  charges that \<open>stripe_customer.get_charges()\<close> lists for one of them (the field
  \<open>charges\<close>). The model class is resolved from the settings and is not among the
  sources; the spec calls what it lists the successful charges of the payment reference,
  each with \<open>amount\<close> and \<open>amount_refunded\<close>, and \<open>get_amount_paid\<close> takes every
  element of that list.
\<close>

definition objects_get :: "(int \<rightharpoonup> stripe_customer) \<Rightarrow> int \<Rightarrow> error + stripe_customer" where
  "objects_get table i = (case table i of None \<Rightarrow> Inl DoesNotExist | Some sc \<Rightarrow> Inr sc)"

definition get_charges :: "stripe_customer \<Rightarrow> stripe_charge list" where
  "get_charges sc = charges sc"

text \<open>
  \<open>BaseCPQQuote.get_amount_paid\<close>: the two nested loops with the accumulator
  \<open>subtotal\<close>. The amounts are integers (cents) and \<open>/\<close> is Python 2's division of
  integers, which rounds down.
\<close>

fun charges_loop :: "int \<Rightarrow> stripe_charge list \<Rightarrow> int" where
  "charges_loop subtotal [] = subtotal"
| "charges_loop subtotal (charge # rest) =
     charges_loop (subtotal + (amount charge div 100 - amount_refunded charge div 100)) rest"

fun payments_loop :: "(int \<rightharpoonup> stripe_customer) \<Rightarrow> int \<Rightarrow> int list \<Rightarrow> error + int" where
  "payments_loop table subtotal [] = Inr subtotal"
| "payments_loop table subtotal (stripe_customer_id # rest) =
     (case objects_get table stripe_customer_id of
        Inl e \<Rightarrow> Inl e
      | Inr sc \<Rightarrow> payments_loop table (charges_loop subtotal (get_charges sc)) rest)"

definition get_amount_paid :: "(int \<rightharpoonup> stripe_customer) \<Rightarrow> customer \<Rightarrow> cpq_quote \<Rightarrow> error + int" where
  "get_amount_paid table c self =
     (case get_payments c self of
        Inl e \<Rightarrow> Inl e
      | Inr payments \<Rightarrow> payments_loop table 0 payments)"

text \<open>
  \<open>BaseCPQQuote.payment_status\<close>, as computed on the first access (the cached attribute
  keeps that value for the object).
\<close>

definition payment_status :: "(int \<rightharpoonup> stripe_customer) \<Rightarrow> customer \<Rightarrow> cpq_quote \<Rightarrow> error + string" where
  "payment_status table c self =
     (case get_amount_paid table c self of
        Inl e \<Rightarrow> Inl e
      | Inr amount_paid \<Rightarrow>
          (let total = get_total self in
           Inr (if amount_paid = 0 then ''Not Paid''
                else if of_int amount_paid < decimal_val total then ''Partially Paid''
                else ''Paid in Full'')))"

section \<open>Invoices\<close>

text \<open>
  \<open>InvoiceType\<close> and \<open>InvoicePaymentTerm\<close> (\<open>htk.apps.cpq.enums\<close>) and \<open>enum_to_str\<close>
  (\<open>htk.utils.enums\<close>) are not among the sources: an enum class is the list of its
  members, name and value, in the order of definition, and \<open>enum_to_str\<close> is a
  parameter. Calling the class with a value gives the first member that carries it and
  raises \<open>ValueError\<close> when there is none.
\<close>

type_synonym enum_member = "string \<times> int"

definition enum_call :: "enum_member list \<Rightarrow> int \<Rightarrow> error + enum_member" where
  "enum_call members v =
     (case find (\<lambda>m. snd m = v) members of None \<Rightarrow> Inl ValueError | Some m \<Rightarrow> Inr m)"

definition get_invoice_type ::
  "enum_member list \<Rightarrow> (enum_member \<Rightarrow> string) \<Rightarrow> cpq_invoice \<Rightarrow> error + string" where
  "get_invoice_type InvoiceType enum_to_str self =
     (case enum_call InvoiceType (int (invoice_type self)) of
        Inl e \<Rightarrow> Inl e
      | Inr member \<Rightarrow> Inr (enum_to_str member))"

definition get_payment_terms ::
  "enum_member list \<Rightarrow> (enum_member \<Rightarrow> string) \<Rightarrow> cpq_invoice \<Rightarrow> error + string" where
  "get_payment_terms InvoicePaymentTerm enum_to_str self =
     (case enum_call InvoicePaymentTerm (int (payment_terms self)) of
        Inl e \<Rightarrow> Inl e
      | Inr member \<Rightarrow> Inr (enum_to_str member))"

text \<open>\<open>BaseCPQInvoice.get_type\<close>.\<close>

definition get_type ::
  "enum_member list \<Rightarrow> (enum_member \<Rightarrow> string) \<Rightarrow> cpq_invoice \<Rightarrow> error + string" where
  "get_type InvoiceType enum_to_str self = get_invoice_type InvoiceType enum_to_str self"

section \<open>The view helper get_javascripts (view_helpers.py)\<close>

text \<open>
  \<open>re.match(pattern, s)\<close> is a parameter of the model: it raises, finds no match
  (\<open>None\<close>) or gives the text of group 1. \<open>loader.get_template\<close> is a parameter too: it
  gives a template or raises.
\<close>

type_synonym matcher = "string \<Rightarrow> string \<Rightarrow> error + string option"

text \<open>
  The file name that \<open>get_javascripts\<close> derives: the first pattern is
  \<open>'%sadmintools/(.*)' % template_prefix\<close>, the second \<open>'%s(.*)' % template_prefix\<close>.
\<close>

definition js_fragment_filename :: "matcher \<Rightarrow> string \<Rightarrow> string \<Rightarrow> error + string" where
  "js_fragment_filename re template_name template_prefix =
     (case re (template_prefix @ ''admintools/(.*)'') template_name of
        Inl e \<Rightarrow> Inl e
      | Inr (Some group1) \<Rightarrow> Inr (template_prefix @ ''admintools/fragments/js/'' @ group1)
      | Inr None \<Rightarrow>
          (case re (template_prefix @ ''(.*)'') template_name of
             Inl e \<Rightarrow> Inl e
           | Inr (Some group1) \<Rightarrow> Inr (template_prefix @ ''fragments/js/'' @ group1)
           | Inr None \<Rightarrow> Inr (''fragments/js/'' @ template_name)))"

text \<open>
  \<open>get_javascripts\<close>: only \<open>TemplateDoesNotExist\<close> is caught; any other exception of the
  loader goes to the caller.
\<close>

definition get_javascripts ::
  "matcher \<Rightarrow> (string \<Rightarrow> error + 't) \<Rightarrow> string \<Rightarrow> string \<Rightarrow> error + string list" where
  "get_javascripts re get_template template_name template_prefix =
     (case js_fragment_filename re template_name template_prefix of
        Inl e \<Rightarrow> Inl e
      | Inr filename \<Rightarrow>
          (case get_template filename of
             Inr t \<Rightarrow> Inr ([] @ [filename])
           | Inl e \<Rightarrow> (if e = TemplateDoesNotExist then Inr [] else Inl e)))"

text \<open>
  Python's \<open>re.match\<close> on the patterns made of literal characters followed by the group
  \<open>(.*)\<close>: the literal part must start the text, and the group takes the rest of the
  line (the dot does not match a newline). A pattern with a special character in its
  literal part is outside this fragment.
\<close>

definition re_special :: "char \<Rightarrow> bool" where
  "re_special c = (c \<in> set ''.^$*+?{}[]|()'' \<or> c = CHR 0x5C)"

definition re_match :: matcher where
  "re_match pattern s =
     (let n = length pattern - 4; lit = take n pattern in
      if drop n pattern = ''(.*)'' \<and> \<not> list_ex re_special lit then
        (if take (length lit) s = lit
         then Inr (Some (takeWhile (\<lambda>c. c \<noteq> CHR 0x0A) (drop (length lit) s)))
         else Inr None)
      else Inl PatternNotModelled)"

section \<open>Sample data\<close>

text \<open>Concrete line items, quotes, customers and Stripe customers, on which the
  functions above are evaluated further down.\<close>

definition widget :: line_item where
  "widget = \<lparr>name = ''widget'', description = ''a widget'',
     unit_cost = Decimal 1999 (- 2), quantity = 3\<rparr>"

definition team_quote :: cpq_group_quote where
  "team_quote = \<lparr>pk = 7, date = ''2015-03-01'', notes_text = ''group notes'',
     line_items = [widget], organization = ''ACME''\<rparr>"

definition bare_group_quote :: cpq_group_quote where
  "bare_group_quote = \<lparr>pk = 8, date = ''2015-03-01'', notes_text = ''nothing yet'',
     line_items = [], organization = ''ACME''\<rparr>"

definition member_quote :: cpq_quote where
  "member_quote = \<lparr>pk = 1, date = ''2015-03-02'', notes_text = ''own notes'',
     line_items = [], group_quote = Some team_quote\<rparr>"

definition fresh_quote :: cpq_quote where
  "fresh_quote = \<lparr>pk = 2, date = ''2015-03-03'', notes_text = ''draft'',
     line_items = [], group_quote = None\<rparr>"

definition priced_quote :: cpq_quote where
  "priced_quote = \<lparr>pk = 3, date = ''2015-03-04'', notes_text = ''two widgets'',
     line_items = [widget, widget], group_quote = None\<rparr>"

definition new_customer :: customer where
  "new_customer = \<lparr>attributes = Map.empty\<rparr>"

definition paying_customer :: customer where
  "paying_customer = \<lparr>attributes = [''quote_3_payments'' \<mapsto> ''[7]'']\<rparr>"

definition stripe_table :: "int \<rightharpoonup> stripe_customer" where
  "stripe_table = [7 \<mapsto> \<lparr>stripe_id = 7, charges = [\<lparr>amount = 1000, amount_refunded = 0\<rparr>]\<rparr>]"

definition sample_enum :: "enum_member list" where
  "sample_enum = [(''INVOICE'', 1), (''QUOTE'', 2), (''RECEIPT'', 3)]"

definition sample_invoice :: cpq_invoice where
  "sample_invoice = \<lparr>pk = 5, date = ''2015-03-05'', notes_text = '''', line_items = [],
     invoice_type = 2, paid = False, payment_terms = 9\<rparr>"

definition refund_table :: "int \<rightharpoonup> stripe_customer" where
  "refund_table =
     [7 \<mapsto> \<lparr>stripe_id = 7, charges = [\<lparr>amount = 1000, amount_refunded = 0\<rparr>,
                                          \<lparr>amount = 2500, amount_refunded = 500\<rparr>]\<rparr>,
      9 \<mapsto> \<lparr>stripe_id = 9, charges = [\<lparr>amount = 300, amount_refunded = 300\<rparr>]\<rparr>]"

definition repeat_customer :: customer where
  "repeat_customer = \<lparr>attributes = [''quote_3_payments'' \<mapsto> ''[7, 9]'']\<rparr>"

definition late_payer :: stripe_customer where
  "late_payer = \<lparr>stripe_id = 9, charges = []\<rparr>"

definition sample_loader :: "string \<Rightarrow> error + unit" where
  "sample_loader filename =
     (if filename = ''fragments/js/page.html'' then Inr () else Inl TemplateDoesNotExist)"

section \<open>Decimal arithmetic is exact\<close>

lemma decimal_val_powi: "decimal_val d = of_int (coefficient d) * 10 powi (exponent d)"
proof (cases "0 \<le> exponent d")
  case True
  then show ?thesis by (simp add: decimal_val_def power_int_def)
next
  case False
  then have "(10::rat) powi exponent d = inverse (10 ^ nat (- exponent d))"
    by (simp add: power_int_def power_one_over inverse_eq_divide)
  with False show ?thesis
    by (simp only: decimal_val_def if_False divide_inverse)
qed

lemma decimal_val_mul_int: "decimal_val (decimal_mul_int d n) = decimal_val d * of_int n"
  by (simp add: decimal_val_powi decimal_mul_int_def)

lemma decimal_val_add: "decimal_val (decimal_add a b) = decimal_val a + decimal_val b"
proof -
  define e where "e = min (exponent a) (exponent b)"
  have split: "(10::rat) powi x = 10 powi e * 10 ^ nat (x - e)" if "e \<le> x" for x
  proof -
    have "(10::rat) powi (e + int (nat (x - e))) = 10 powi e * 10 powi int (nat (x - e))"
      by (rule power_int_add) simp
    moreover have "e + int (nat (x - e)) = x"
      using that by simp
    ultimately show ?thesis
      by (simp only: power_int_of_nat)
  qed
  have pa: "(10::rat) powi exponent a = 10 powi e * 10 ^ nat (exponent a - e)"
    by (rule split) (simp add: e_def)
  have pb: "(10::rat) powi exponent b = 10 powi e * 10 ^ nat (exponent b - e)"
    by (rule split) (simp add: e_def)
  have "decimal_val (decimal_add a b) =
        (of_int (coefficient a) * 10 ^ nat (exponent a - e)
          + of_int (coefficient b) * 10 ^ nat (exponent b - e)) * 10 powi e"
    by (simp add: decimal_val_powi decimal_add_def Let_def e_def)
  also have "\<dots> = decimal_val a + decimal_val b"
    by (simp add: decimal_val_powi pa pb algebra_simps)
  finally show ?thesis .
qed

lemma total_loop_val:
  "decimal_val (total_loop subtotal items) =
     decimal_val subtotal + (\<Sum>li\<leftarrow>items. decimal_val (get_amount li))"
  by (induction items arbitrary: subtotal) (simp_all add: decimal_val_add)

lemma decimal_val_zero: "decimal_val (Decimal 0 0) = 0"
  by (simp add: decimal_val_def)

section \<open>Line item amounts and totals\<close>

text \<open>
  C8. For every line item, \<open>get_amount\<close> is exactly \<open>unit_cost * quantity\<close>: the value of
  the result is the product of the values, the number of decimal places is that of
  \<open>unit_cost\<close>, and 19.99 times 3 is 59.97. The function is total and reads nothing but
  the line item.
\<close>

theorem get_amount_exact:
  "decimal_val (get_amount self) = decimal_val (unit_cost self) * of_nat (quantity self)
   \<and> exponent (get_amount self) = exponent (unit_cost self)
   \<and> get_amount \<lparr>name = n, description = d, unit_cost = Decimal 1999 (- 2), quantity = 3\<rparr>
       = Decimal 5997 (- 2)"
  by (simp add: get_amount_def decimal_val_mul_int) (simp add: decimal_mul_int_def)

theorem get_amount_exact_witness:
  "decimal_val (get_amount widget) = 5997 / 100
   \<and> decimal_val (unit_cost widget) * 3 = 5997 / 100"
  using get_amount_exact [of widget "''widget''" "''a widget''"]
  by (simp add: widget_def decimal_val_def)

text \<open>
  C5. The total of a quote and of a group quote is the sum of \<open>get_amount\<close> over the line
  items that \<open>get_line_items\<close> gives (for a quote, the effective ones), and it is zero
  when there are none.
\<close>

theorem get_total_sum:
  "decimal_val (get_total q) = (\<Sum>li\<leftarrow>get_line_items q. decimal_val (get_amount li))
   \<and> decimal_val (group_quote_get_total g)
       = (\<Sum>li\<leftarrow>abstract_get_line_items g. decimal_val (get_amount li))
   \<and> (get_line_items q = [] \<longrightarrow> get_total q = Decimal 0 0 \<and> decimal_val (get_total q) = 0)
   \<and> (abstract_get_line_items g = [] \<longrightarrow>
        group_quote_get_total g = Decimal 0 0 \<and> decimal_val (group_quote_get_total g) = 0)"
  by (simp add: get_total_def group_quote_get_total_def get_total_via_def total_loop_val
      decimal_val_zero)

theorem get_total_sum_witness:
  "get_line_items fresh_quote = [] \<and> get_total fresh_quote = Decimal 0 0
   \<and> decimal_val (get_total fresh_quote) = 0
   \<and> abstract_get_line_items bare_group_quote = []
   \<and> group_quote_get_total bare_group_quote = Decimal 0 0"
proof -
  have q: "get_line_items fresh_quote = []"
    by (simp add: fresh_quote_def get_line_items_def use_group_quote_def)
  have g: "abstract_get_line_items bare_group_quote = []"
    by (simp add: bare_group_quote_def abstract_get_line_items_def)
  from get_total_sum [of fresh_quote bare_group_quote] q g show ?thesis
    by (simp add: decimal_val_zero)
qed

section \<open>Delegation to the group quote\<close>

text \<open>
  C2, as amended. Delegation depends on the present state only. A quote with a group quote
  and no line item of its own gives the group quote's notes and line items; a quote with
  a line item of its own, or with no group quote, gives its own. Adding a line item
  stops the delegation, and removing it again, so that the collection is empty, brings
  the delegation back.
\<close>

theorem delegation_follows_current_state:
  "(group_quote q = Some g \<and> line_items q = [] \<longrightarrow>
      get_notes q = abstract_get_notes g \<and> get_line_items q = abstract_get_line_items g)
   \<and> (line_items q \<noteq> [] \<longrightarrow> get_notes q = notes_text q \<and> get_line_items q = line_items q)
   \<and> (group_quote q = None \<longrightarrow> get_notes q = notes_text q \<and> get_line_items q = line_items q)
   \<and> get_notes (add_line_item q li) = notes_text q
   \<and> get_line_items (add_line_item q li) = line_items q @ [li]
   \<and> (group_quote q = Some g \<and> line_items q = [] \<longrightarrow>
      get_notes (remove_line_item (add_line_item q li) li) = abstract_get_notes g
      \<and> get_line_items (remove_line_item (add_line_item q li) li) = abstract_get_line_items g)"
  by (simp add: get_notes_def get_line_items_def use_group_quote_def add_line_item_def
      remove_line_item_def)

theorem delegation_follows_current_state_witness:
  "group_quote member_quote = Some team_quote \<and> line_items member_quote = []
   \<and> get_notes member_quote = ''group notes''
   \<and> get_line_items member_quote = [widget]
   \<and> line_items priced_quote \<noteq> [] \<and> get_notes priced_quote = ''two widgets''
   \<and> group_quote fresh_quote = None \<and> get_notes fresh_quote = ''draft''"
proof -
  have a: "group_quote member_quote = Some team_quote \<and> line_items member_quote = []"
    by (simp add: member_quote_def)
  have b: "line_items priced_quote \<noteq> []" "notes_text priced_quote = ''two widgets''"
    by (simp_all add: priced_quote_def)
  have c: "group_quote fresh_quote = None" "notes_text fresh_quote = ''draft''"
    by (simp_all add: fresh_quote_def)
  have d: "abstract_get_notes team_quote = ''group notes''"
     "abstract_get_line_items team_quote = [widget]"
    by (simp_all add: team_quote_def abstract_get_notes_def abstract_get_line_items_def)
  from a b c d delegation_follows_current_state [of member_quote team_quote widget]
    delegation_follows_current_state [of priced_quote team_quote widget]
    delegation_follows_current_state [of fresh_quote team_quote widget]
  show ?thesis by simp
qed

text \<open>
  C2 as stated fails: the claim says that delegation does not resume once a line item
  was added and removed. On \<open>member_quote\<close>, adding \<open>widget\<close> gives the quote's own
  notes, and deleting it again gives the group quote's notes and line items.
\<close>

theorem delegation_resumes_counterexample:
  "group_quote member_quote = Some team_quote
   \<and> line_items member_quote = []
   \<and> get_notes (add_line_item member_quote widget) = ''own notes''
   \<and> line_items (remove_line_item (add_line_item member_quote widget) widget) = []
   \<and> get_notes (remove_line_item (add_line_item member_quote widget) widget) = ''group notes''
   \<and> get_notes (remove_line_item (add_line_item member_quote widget) widget) \<noteq> ''own notes''
   \<and> get_line_items (remove_line_item (add_line_item member_quote widget) widget) = [widget]"
  by (simp add: get_notes_def get_line_items_def use_group_quote_def add_line_item_def
      remove_line_item_def member_quote_def team_quote_def abstract_get_notes_def
      abstract_get_line_items_def)

section \<open>Writing and reading integers and JSON lists\<close>

declare str_nat.simps [simp del]

lemma of_char_digit_char: "d < 10 \<Longrightarrow> (of_char (digit_char d) :: nat) = 48 + d"
  by (simp add: digit_char_def)

lemma is_digit_digit_char: "d < 10 \<Longrightarrow> is_digit (digit_char d)"
  by (simp add: is_digit_def of_char_digit_char)

lemma digit_val_digit_char: "d < 10 \<Longrightarrow> digit_val (digit_char d) = d"
  by (simp add: digit_val_def of_char_digit_char)

lemma is_digit_not_special:
  assumes "is_digit c"
  shows "c \<noteq> CHR '','' " and "c \<noteq> CHR ''-''" and "\<not> is_ws c"
  using assms by (auto simp: is_digit_def is_ws_def)

lemma digit_char_zero: "d < 10 \<Longrightarrow> digit_char d = CHR ''0'' \<longleftrightarrow> d = 0"
proof
  assume d: "d < 10" and "digit_char d = CHR ''0''"
  then have "(of_char (digit_char d) :: nat) = of_char CHR ''0''" by simp
  with d show "d = 0" by (simp add: of_char_digit_char)
next
  have "digit_char 0 = CHR ''0''" by code_simp
  moreover assume "d = 0"
  ultimately show "digit_char d = CHR ''0''" by simp
qed

lemma str_nat_digits: "list_all is_digit (str_nat n)"
proof (induction n rule: str_nat.induct)
  case (1 n)
  show ?case
  proof (cases "n < 10")
    case True
    then show ?thesis by (simp add: str_nat.simps [of n] is_digit_digit_char)
  next
    case False
    with 1 show ?thesis by (simp add: str_nat.simps [of n] is_digit_digit_char)
  qed
qed

lemma str_nat_nonempty: "str_nat n \<noteq> []"
  by (simp add: str_nat.simps [of n])

lemma parse_nat_snoc: "parse_nat (s @ [c]) = 10 * parse_nat s + digit_val c"
  by (simp add: parse_nat_def)

lemma parse_nat_str_nat: "parse_nat (str_nat n) = n"
proof (induction n rule: str_nat.induct)
  case (1 n)
  show ?case
  proof (cases "n < 10")
    case True
    then show ?thesis by (simp add: str_nat.simps [of n] parse_nat_def digit_val_digit_char)
  next
    case False
    with 1 show ?thesis
      by (simp add: str_nat.simps [of n] parse_nat_snoc digit_val_digit_char)
  qed
qed

lemma hd_str_nat_pos: "0 < n \<Longrightarrow> hd (str_nat n) \<noteq> CHR ''0''"
proof (induction n rule: str_nat.induct)
  case (1 n)
  show ?case
  proof (cases "n < 10")
    case True
    with 1(2) show ?thesis by (simp add: str_nat.simps [of n] digit_char_zero)
  next
    case False
    then have "0 < n div 10" by simp
    with 1(1) False have "hd (str_nat (n div 10)) \<noteq> CHR ''0''" by simp
    with False show ?thesis
      by (simp add: str_nat.simps [of n] str_nat_nonempty)
  qed
qed

lemma length_str_nat_small: "n < 10 \<Longrightarrow> length (str_nat n) = 1"
  by (simp add: str_nat.simps [of n])

lemma parse_digits_str_nat: "parse_digits (str_nat n) = Some n"
proof -
  have "hd (str_nat n) \<noteq> CHR ''0''" if "1 < length (str_nat n)"
  proof -
    from that have "\<not> n < 10" using length_str_nat_small [of n] by auto
    then show ?thesis by (simp add: hd_str_nat_pos)
  qed
  then show ?thesis
    by (auto simp: parse_digits_def str_nat_nonempty str_nat_digits parse_nat_str_nat)
qed

lemma hd_str_nat_digit: "is_digit (hd (str_nat n))"
  using str_nat_digits [of n] str_nat_nonempty [of n]
  by (cases "str_nat n") simp_all

lemma last_str_nat_digit: "is_digit (last (str_nat n))"
  using str_nat_digits [of n] str_nat_nonempty [of n]
  by (simp add: list_all_iff)

lemma parse_int_str_int: "parse_int (str_int i) = Some i"
proof (cases "i < 0")
  case True
  then show ?thesis
    by (simp add: parse_int_def str_int_def parse_digits_str_nat)
next
  case False
  obtain c r where cr: "str_nat (nat i) = c # r"
    using str_nat_nonempty [of "nat i"] by (cases "str_nat (nat i)") auto
  with hd_str_nat_digit [of "nat i"] have "c \<noteq> CHR ''-''"
    by (auto dest: is_digit_not_special)
  with False cr parse_digits_str_nat [of "nat i"] show ?thesis
    by (simp add: parse_int_def str_int_def)
qed

lemma str_int_nonempty: "str_int i \<noteq> []"
  by (simp add: str_int_def str_nat_nonempty)

lemma str_int_no_comma: "CHR '','' \<notin> set (str_int i)"
  using str_nat_digits [of "nat i"] str_nat_digits [of "nat (- i)"]
  by (auto simp: str_int_def list_all_iff dest: is_digit_not_special)

lemma hd_str_int_not_ws: "\<not> is_ws (hd (str_int i))"
  using hd_str_nat_digit [of "nat i"]
  by (auto simp: str_int_def is_ws_def dest: is_digit_not_special)

lemma last_str_int_not_ws: "\<not> is_ws (last (str_int i))"
  using last_str_nat_digit [of "nat i"] last_str_nat_digit [of "nat (- i)"]
  by (auto simp: str_int_def str_nat_nonempty dest: is_digit_not_special)

lemma strip_id:
  assumes "s \<noteq> []" and "\<not> is_ws (hd s)" and "\<not> is_ws (last s)"
  shows "strip s = s"
proof -
  from assms have "dropWhile is_ws s = s"
    by (cases s) simp_all
  moreover from assms have "dropWhile is_ws (rev s) = rev s"
    by (cases "rev s") (simp_all add: hd_rev [symmetric] del: rev_is_Nil_conv)
  ultimately show ?thesis
    by (simp add: strip_def)
qed

lemma strip_ws_Cons: "is_ws c \<Longrightarrow> strip (c # s) = strip s"
  by (simp add: strip_def)

lemma strip_Nil: "strip [] = []"
  by (simp add: strip_def)

lemma split_on_nonempty: "split_on d s \<noteq> []"
  by (induction s) (auto split: list.splits)

lemma split_on_no_delim: "d \<notin> set s \<Longrightarrow> split_on d s = [s]"
  by (induction s) auto

lemma split_on_append:
  "d \<notin> set a \<Longrightarrow> split_on d (a @ d # rest) = a # split_on d rest"
  by (induction a) auto

lemma split_on_space:
  "map (\<lambda>piece. parse_int (strip piece)) (split_on CHR '','' (CHR '' '' # s))
     = map (\<lambda>piece. parse_int (strip piece)) (split_on CHR '','' s)"
proof -
  obtain p ps where "split_on CHR '','' s = p # ps"
    using split_on_nonempty [of "CHR '',''" s] by (cases "split_on CHR '','' s") auto
  then show ?thesis
    by (simp add: strip_ws_Cons is_ws_def)
qed

lemma items_of_join:
  "xs \<noteq> [] \<Longrightarrow>
   map (\<lambda>piece. parse_int (strip piece)) (split_on CHR '','' (join '', '' (map str_int xs)))
     = map Some xs"
proof (induction xs rule: induct_list012)
  case 1
  then show ?case by simp
next
  case (2 x)
  show ?case
    by (simp add: split_on_no_delim str_int_no_comma strip_id str_int_nonempty
        hd_str_int_not_ws last_str_int_not_ws parse_int_str_int)
next
  case (3 x y zs)
  have "join '', '' (map str_int (x # y # zs))
      = str_int x @ CHR '','' # CHR '' '' # join '', '' (map str_int (y # zs))"
    by simp
  then show ?case
    using 3
    by (simp only: split_on_append [OF str_int_no_comma] list.map split_on_space)
      (simp add: strip_id str_int_nonempty hd_str_int_not_ws last_str_int_not_ws
        parse_int_str_int)
qed

lemma join_ends:
  "xs \<noteq> [] \<Longrightarrow>
   join '', '' (map str_int xs) \<noteq> []
   \<and> hd (join '', '' (map str_int xs)) = hd (str_int (hd xs))
   \<and> last (join '', '' (map str_int xs)) = last (str_int (last xs))"
proof (induction xs rule: induct_list012)
  case 1
  then show ?case by simp
next
  case (2 x)
  then show ?case by (simp add: str_int_nonempty)
next
  case (3 x y zs)
  then show ?case
    by (simp add: str_int_nonempty)
qed

lemma json_roundtrip: "json_loads (json_dumps xs) = Inr xs"
proof -
  let ?J = "join '', '' (map str_int xs)"
  let ?t = "CHR ''['' # ?J @ '']''"
  have t: "strip ?t = ?t"
    by (rule strip_id) (simp_all add: is_ws_def)
  have bl: "butlast (tl ?t) = ?J"
    by (simp add: butlast_append)
  show ?thesis
  proof (cases "xs = []")
    case True
    then show ?thesis
      by (simp add: json_loads_def json_dumps_def strip_def is_ws_def)
  next
    case False
    from join_ends [OF False] have J: "strip ?J = ?J" "?J \<noteq> []"
      by (simp_all add: strip_id hd_str_int_not_ws last_str_int_not_ws)
    have "json_loads ?t = Inr xs"
      unfolding json_loads_def t Let_def bl J
      by (simp add: items_of_join [OF False] list_all_iff comp_def J)
    then show ?thesis
      by (simp add: json_dumps_def)
  qed
qed

lemma json_dumps_nonempty: "json_dumps xs \<noteq> []"
  by (simp add: json_dumps_def)

section \<open>The payment list\<close>

text \<open>
  C9. When the customer holds no value under the quote's key, or the empty text,
  \<open>get_payments\<close> returns the empty list and does not fail.
\<close>

theorem get_payments_absent_or_empty:
  "get_attribute c (payments_key q) = None \<or> get_attribute c (payments_key q) = Some []
   \<Longrightarrow> get_payments c q = Inr []"
  by (auto simp: get_payments_def)

theorem get_payments_absent_or_empty_witness:
  "get_attribute new_customer (payments_key fresh_quote) = None
   \<and> get_payments new_customer fresh_quote = Inr []
   \<and> get_attribute (set_attribute new_customer (payments_key fresh_quote) []) (payments_key fresh_quote) = Some []
   \<and> get_payments (set_attribute new_customer (payments_key fresh_quote) []) fresh_quote = Inr []"
proof -
  have a: "get_attribute new_customer (payments_key fresh_quote) = None"
    by (simp add: get_attribute_def new_customer_def)
  have b: "get_attribute (set_attribute new_customer (payments_key fresh_quote) [])
             (payments_key fresh_quote) = Some []"
    by (simp add: get_attribute_def set_attribute_def)
  from a b get_payments_absent_or_empty [of new_customer fresh_quote]
    get_payments_absent_or_empty
      [of "set_attribute new_customer (payments_key fresh_quote) []" fresh_quote]
  show ?thesis by simp
qed

lemma get_payments_after_set:
  "get_payments (set_attribute c (payments_key q) (json_dumps xs)) q = Inr xs"
  by (simp add: get_payments_def get_attribute_def set_attribute_def json_dumps_nonempty
      json_roundtrip)

lemma approve_and_pay_result:
  assumes "get_payments c q = Inr ps"
  shows "approve_and_pay c q sc
     = Inr (set_attribute c (payments_key q) (json_dumps (ps @ [stripe_id sc])))"
  using assms by (simp add: approve_and_pay_def)

lemma approve_and_pay_all_result:
  assumes "get_payments c q = Inr ps"
  shows "\<exists>c'. approve_and_pay_all c q scs = Inr c'
           \<and> get_payments c' q = Inr (ps @ map stripe_id scs)"
  using assms
proof (induction scs arbitrary: c ps)
  case Nil
  then show ?case by simp
next
  case (Cons sc scs)
  let ?c = "set_attribute c (payments_key q) (json_dumps (ps @ [stripe_id sc]))"
  have "get_payments ?c q = Inr (ps @ [stripe_id sc])"
    by (rule get_payments_after_set)
  from Cons.IH [OF this] obtain c' where
    "approve_and_pay_all ?c q scs = Inr c'"
    "get_payments c' q = Inr ((ps @ [stripe_id sc]) @ map stripe_id scs)"
    by blast
  then show ?case
    by (simp add: approve_and_pay_result [OF Cons.prems])
qed

text \<open>
  C4. When \<open>get_payments\<close> gives a list, \<open>approve_and_pay\<close> succeeds and \<open>get_payments\<close>
  then gives that list with the Stripe customer's id appended at the end; after any run
  of payments the earlier references are still there, in their order, before the new ones.
\<close>

theorem approve_and_pay_appends:
  assumes "get_payments c q = Inr ps"
  shows "(\<exists>c'. approve_and_pay c q sc = Inr c'
            \<and> get_payments c' q = Inr (ps @ [stripe_id sc]))
     \<and> (\<exists>c'. approve_and_pay_all c q scs = Inr c'
            \<and> get_payments c' q = Inr (ps @ map stripe_id scs))"
  using approve_and_pay_result [OF assms, of sc] approve_and_pay_all_result [OF assms, of scs]
  by (simp add: get_payments_after_set)

lemma key3: "payments_key priced_quote = ''quote_3_payments''"
  by code_simp

lemma get_payments_paying: "get_payments paying_customer priced_quote = Inr [7]"
proof -
  have "json_loads ''[7]'' = Inr [7]"
    by code_simp
  then show ?thesis
    by (simp add: get_payments_def get_attribute_def paying_customer_def key3)
qed

theorem approve_and_pay_appends_witness:
  "get_payments paying_customer priced_quote = Inr [7]
   \<and> approve_and_pay paying_customer priced_quote late_payer
       = Inr (set_attribute paying_customer ''quote_3_payments'' ''[7, 9]'')
   \<and> get_payments (set_attribute paying_customer ''quote_3_payments'' ''[7, 9]'') priced_quote
       = Inr [7, 9]"
proof -
  have d: "json_dumps [7, stripe_id late_payer] = ''[7, 9]''"
    by code_simp
  have a: "approve_and_pay paying_customer priced_quote late_payer
       = Inr (set_attribute paying_customer ''quote_3_payments'' ''[7, 9]'')"
    by (simp add: approve_and_pay_def get_payments_paying key3 d)
  have s: "stripe_id late_payer = 9"
    by (simp add: late_payer_def)
  from approve_and_pay_appends [OF get_payments_paying, of late_payer "[]"] a s
    get_payments_paying
  show ?thesis
    by simp
qed

section \<open>The amount paid\<close>

lemma charges_loop_sum:
  "charges_loop subtotal cs =
     subtotal + (\<Sum>ch\<leftarrow>cs. amount ch div 100 - amount_refunded ch div 100)"
  by (induction cs arbitrary: subtotal) simp_all

lemma payments_loop_sum:
  assumes "\<forall>i\<in>set ps. table i \<noteq> None"
  shows "payments_loop table subtotal ps =
     Inr (subtotal + (\<Sum>i\<leftarrow>ps. \<Sum>ch\<leftarrow>get_charges (the (table i)).
            amount ch div 100 - amount_refunded ch div 100))"
  using assms
proof (induction ps arbitrary: subtotal)
  case Nil
  then show ?case by simp
next
  case (Cons i ps)
  then obtain sc where sc: "table i = Some sc" by auto
  with Cons show ?case
    by (simp add: objects_get_def charges_loop_sum)
qed

lemma payments_loop_missing:
  assumes "\<exists>i\<in>set ps. table i = None"
  shows "payments_loop table subtotal ps = Inl DoesNotExist"
  using assms
proof (induction ps arbitrary: subtotal)
  case Nil
  then show ?case by simp
next
  case (Cons i ps)
  then show ?case
    by (cases "table i") (auto simp: objects_get_def)
qed

lemma whole_units_charges:
  assumes "\<forall>ch\<in>set cs. 100 dvd amount ch \<and> 100 dvd amount_refunded ch"
  shows "100 * (\<Sum>ch\<leftarrow>cs. amount ch div 100 - amount_refunded ch div 100)
           = (\<Sum>ch\<leftarrow>cs. amount ch - amount_refunded ch)"
  using assms by (induction cs) (simp_all add: algebra_simps)

lemma whole_units_payments:
  assumes "\<forall>i\<in>set ps. \<forall>ch\<in>set (get_charges (the (table i))).
             100 dvd amount ch \<and> 100 dvd amount_refunded ch"
  shows "100 * (\<Sum>i\<leftarrow>ps. \<Sum>ch\<leftarrow>get_charges (the (table i)).
                   amount ch div 100 - amount_refunded ch div 100)
           = (\<Sum>i\<leftarrow>ps. \<Sum>ch\<leftarrow>get_charges (the (table i)). amount ch - amount_refunded ch)"
  using assms by (induction ps) (simp_all add: algebra_simps whole_units_charges)

text \<open>
  C3, as amended. \<open>get_amount_paid\<close> is in currency units, not in cents. When every
  recorded payment reference names a Stripe customer and every amount and refunded
  amount is a whole number of currency units (a multiple of 100 cents), a hundred times
  \<open>get_amount_paid\<close> is the sum, over all recorded payment references and over all
  successful charges listed for each reference by the payment-provider integration, of
  \<open>charge.amount - charge.amount_refunded\<close>.
\<close>

theorem get_amount_paid_in_currency_units:
  assumes "get_payments c q = Inr ps"
    and "\<forall>i\<in>set ps. table i \<noteq> None"
    and "\<forall>i\<in>set ps. \<forall>ch\<in>set (get_charges (the (table i))).
           100 dvd amount ch \<and> 100 dvd amount_refunded ch"
  shows "\<exists>paid. get_amount_paid table c q = Inr paid
           \<and> 100 * paid = (\<Sum>i\<leftarrow>ps. \<Sum>ch\<leftarrow>get_charges (the (table i)).
                              amount ch - amount_refunded ch)"
proof -
  from assms(1,2) have "get_amount_paid table c q =
      Inr (\<Sum>i\<leftarrow>ps. \<Sum>ch\<leftarrow>get_charges (the (table i)).
             amount ch div 100 - amount_refunded ch div 100)"
    by (simp add: get_amount_paid_def payments_loop_sum)
  with whole_units_payments [OF assms(3)] show ?thesis
    by simp
qed

lemma get_payments_repeat: "get_payments repeat_customer priced_quote = Inr [7, 9]"
proof -
  have "json_loads ''[7, 9]'' = Inr [7, 9]"
    by code_simp
  then show ?thesis
    by (simp add: get_payments_def get_attribute_def repeat_customer_def key3)
qed

theorem get_amount_paid_in_currency_units_witness:
  "get_payments repeat_customer priced_quote = Inr [7, 9]
   \<and> map_option get_charges (refund_table 7)
        = Some [\<lparr>amount = 1000, amount_refunded = 0\<rparr>, \<lparr>amount = 2500, amount_refunded = 500\<rparr>]
   \<and> map_option get_charges (refund_table 9) = Some [\<lparr>amount = 300, amount_refunded = 300\<rparr>]
   \<and> get_amount_paid refund_table repeat_customer priced_quote = Inr 30
   \<and> (100::int) * 30 = (1000 - 0) + (2500 - 500) + (300 - 300)"
proof -
  have found: "\<forall>i\<in>set [7, 9]. refund_table i \<noteq> None"
    by (simp add: refund_table_def)
  have whole: "\<forall>i\<in>set [7, 9]. \<forall>ch\<in>set (get_charges (the (refund_table i))).
                 100 dvd amount ch \<and> 100 dvd amount_refunded ch"
    by (simp add: refund_table_def get_charges_def)
  have net: "(\<Sum>i\<leftarrow>[7, 9]. \<Sum>ch\<leftarrow>get_charges (the (refund_table i)).
                amount ch - amount_refunded ch) = 3000"
    by (simp add: refund_table_def get_charges_def)
  have listed: "map_option get_charges (refund_table 7)
        = Some [\<lparr>amount = 1000, amount_refunded = 0\<rparr>, \<lparr>amount = 2500, amount_refunded = 500\<rparr>]"
    "map_option get_charges (refund_table 9) = Some [\<lparr>amount = 300, amount_refunded = 300\<rparr>]"
    by (simp_all add: refund_table_def get_charges_def)
  from get_amount_paid_in_currency_units [OF get_payments_repeat found whole]
  obtain paid where "get_amount_paid refund_table repeat_customer priced_quote = Inr paid"
    and "100 * paid = (\<Sum>i\<leftarrow>[7, 9]. \<Sum>ch\<leftarrow>get_charges (the (refund_table i)).
                         amount ch - amount_refunded ch)"
    by blast
  with net have "get_amount_paid refund_table repeat_customer priced_quote = Inr 30"
    by simp
  with get_payments_repeat listed show ?thesis
    by simp
qed

lemma get_amount_paid_paying:
  "get_amount_paid stripe_table paying_customer priced_quote = Inr 10"
  by (simp add: get_amount_paid_def get_payments_paying stripe_table_def objects_get_def
      get_charges_def)

text \<open>
  C3 as stated fails: one recorded payment with one charge of 1000 cents and no refund
  gives 10, where the sum of \<open>charge.amount - charge.amount_refunded\<close> is 1000.
\<close>

theorem get_amount_paid_cents_counterexample:
  "get_payments paying_customer priced_quote = Inr [7]
   \<and> map_option get_charges (stripe_table 7) = Some [\<lparr>amount = 1000, amount_refunded = 0\<rparr>]
   \<and> get_amount_paid stripe_table paying_customer priced_quote = Inr 10
   \<and> get_amount_paid stripe_table paying_customer priced_quote \<noteq> Inr (1000 - 0)"
  by (simp add: get_amount_paid_def get_payments_paying stripe_table_def objects_get_def
      get_charges_def)

section \<open>The payment status\<close>

lemma get_payments_fresh: "get_payments new_customer q = Inr []"
  by (simp add: get_payments_def get_attribute_def new_customer_def)

lemma get_amount_paid_fresh: "get_amount_paid t new_customer q = Inr 0"
  by (simp add: get_amount_paid_def get_payments_fresh)

lemma get_total_fresh: "get_total fresh_quote = Decimal 0 0"
  by (simp add: get_total_def get_total_via_def get_line_items_def use_group_quote_def fresh_quote_def)

lemma total_priced: "decimal_val (get_total priced_quote) = 11994 / 100"
  by (simp add: get_total_def get_total_via_def get_line_items_def use_group_quote_def
      priced_quote_def widget_def get_amount_def decimal_mul_int_def decimal_add_def
      decimal_val_def)

text \<open>
  C1, as amended. When \<open>get_amount_paid\<close> gives an amount, the status is one of the three
  labels: \<open>Not Paid\<close> when the amount is 0 (whatever the total), \<open>Partially Paid\<close> when it
  is not 0 and below the total, \<open>Paid in Full\<close> when it is not 0 and at least the total;
  at the boundary where a non-zero amount equals the total it is \<open>Paid in Full\<close>.
\<close>

theorem payment_status_rule:
  assumes "get_amount_paid table c self = Inr amount_paid"
  shows "(amount_paid = 0 \<longrightarrow> payment_status table c self = Inr ''Not Paid'')
    \<and> (amount_paid \<noteq> 0 \<and> of_int amount_paid < decimal_val (get_total self)
          \<longrightarrow> payment_status table c self = Inr ''Partially Paid'')
    \<and> (amount_paid \<noteq> 0 \<and> decimal_val (get_total self) \<le> of_int amount_paid
          \<longrightarrow> payment_status table c self = Inr ''Paid in Full'')
    \<and> (amount_paid \<noteq> 0 \<and> of_int amount_paid = decimal_val (get_total self)
          \<longrightarrow> payment_status table c self = Inr ''Paid in Full'')
    \<and> payment_status table c self
          \<in> {Inr ''Not Paid'', Inr ''Partially Paid'', Inr ''Paid in Full''}"
  using assms by (simp add: payment_status_def Let_def)

theorem payment_status_rule_witness:
  "get_amount_paid stripe_table paying_customer priced_quote = Inr 10
   \<and> (10::int) \<noteq> 0
   \<and> of_int 10 < decimal_val (get_total priced_quote)
   \<and> payment_status stripe_table paying_customer priced_quote = Inr ''Partially Paid''
   \<and> get_amount_paid Map.empty new_customer fresh_quote = Inr 0
   \<and> payment_status Map.empty new_customer fresh_quote = Inr ''Not Paid''"
proof -
  have lt: "of_int 10 < decimal_val (get_total priced_quote)"
    by (simp add: total_priced)
  from payment_status_rule [OF get_amount_paid_paying] lt
    payment_status_rule [OF get_amount_paid_fresh, of Map.empty fresh_quote]
    get_amount_paid_paying get_amount_paid_fresh [of Map.empty fresh_quote]
  show ?thesis
    by simp
qed

text \<open>
  C1 as stated fails: for a quote with no line item and no payment the amount paid is 0
  and the total is 0, so the amount equals the total and is at least the total, yet the
  status is \<open>Not Paid\<close> and not \<open>Paid in Full\<close>.
\<close>

theorem payment_status_zero_total_counterexample:
  "get_amount_paid Map.empty new_customer fresh_quote = Inr 0
   \<and> decimal_val (get_total fresh_quote) = of_int 0
   \<and> decimal_val (get_total fresh_quote) \<le> of_int 0
   \<and> payment_status Map.empty new_customer fresh_quote = Inr ''Not Paid''
   \<and> payment_status Map.empty new_customer fresh_quote \<noteq> Inr ''Paid in Full''"
  by (simp add: payment_status_def get_amount_paid_fresh get_total_fresh decimal_val_zero)

section \<open>Invoice type and payment terms\<close>

lemma enum_call_error: "enum_call members v = Inl e \<Longrightarrow> e = ValueError"
  by (auto simp: enum_call_def split: option.splits)

lemma enum_call_raises_iff: "enum_call members v = Inl ValueError \<longleftrightarrow> v \<notin> snd ` set members"
proof (cases "find (\<lambda>m. snd m = v) members")
  case None
  then have "v \<notin> snd ` set members"
    by (auto simp: find_None_iff)
  with None show ?thesis
    by (simp add: enum_call_def)
next
  case (Some m)
  then have "m \<in> set members" "snd m = v"
    by (auto simp: find_Some_iff)
  then have "v \<in> snd ` set members"
    by (auto simp: image_iff)
  with Some show ?thesis
    by (simp add: enum_call_def)
qed

lemma enum_call_member:
  "enum_call members v = Inr m \<Longrightarrow> m \<in> set members \<and> snd m = v"
  by (auto simp: enum_call_def find_Some_iff split: option.splits)

text \<open>
  C7. \<open>get_type\<close> is \<open>get_invoice_type\<close>. \<open>get_invoice_type\<close> and \<open>get_payment_terms\<close>
  raise \<open>ValueError\<close> exactly when no member of the enum carries the stored code;
  otherwise they give the label of a member that carries it. No other error occurs and
  none is caught.
\<close>

theorem invoice_labels_by_enum_lookup:
  "get_type T to_str invoice = get_invoice_type T to_str invoice
   \<and> (get_invoice_type T to_str invoice = Inl ValueError
        \<longleftrightarrow> int (invoice_type invoice) \<notin> snd ` set T)
   \<and> (get_payment_terms P to_str invoice = Inl ValueError
        \<longleftrightarrow> int (payment_terms invoice) \<notin> snd ` set P)
   \<and> (int (invoice_type invoice) \<in> snd ` set T \<longrightarrow>
        (\<exists>m \<in> set T. snd m = int (invoice_type invoice) \<and> get_invoice_type T to_str invoice = Inr (to_str m)))
   \<and> (int (payment_terms invoice) \<in> snd ` set P \<longrightarrow>
        (\<exists>m \<in> set P. snd m = int (payment_terms invoice) \<and> get_payment_terms P to_str invoice = Inr (to_str m)))
   \<and> (\<forall>e. get_invoice_type T to_str invoice = Inl e \<or> get_payment_terms P to_str invoice = Inl e
        \<longrightarrow> e = ValueError)"
proof -
  have a: "get_invoice_type T to_str invoice = Inl ValueError
        \<longleftrightarrow> int (invoice_type invoice) \<notin> snd ` set T"
    unfolding enum_call_raises_iff [symmetric]
    by (auto simp: get_invoice_type_def split: sum.splits dest: enum_call_error)
  have b: "get_payment_terms P to_str invoice = Inl ValueError
        \<longleftrightarrow> int (payment_terms invoice) \<notin> snd ` set P"
    unfolding enum_call_raises_iff [symmetric]
    by (auto simp: get_payment_terms_def split: sum.splits dest: enum_call_error)
  have c: "\<exists>m \<in> set T. snd m = int (invoice_type invoice) \<and> get_invoice_type T to_str invoice = Inr (to_str m)"
    if "int (invoice_type invoice) \<in> snd ` set T"
  proof (cases "enum_call T (int (invoice_type invoice))")
    case (Inl e)
    with that show ?thesis
      using enum_call_error [OF Inl] enum_call_raises_iff [of T "int (invoice_type invoice)"] by simp
  next
    case (Inr m)
    with enum_call_member [OF Inr] show ?thesis
      by (auto simp: get_invoice_type_def)
  qed
  have d: "\<exists>m \<in> set P. snd m = int (payment_terms invoice) \<and> get_payment_terms P to_str invoice = Inr (to_str m)"
    if "int (payment_terms invoice) \<in> snd ` set P"
  proof (cases "enum_call P (int (payment_terms invoice))")
    case (Inl e)
    with that show ?thesis
      using enum_call_error [OF Inl] enum_call_raises_iff [of P "int (payment_terms invoice)"] by simp
  next
    case (Inr m)
    with enum_call_member [OF Inr] show ?thesis
      by (auto simp: get_payment_terms_def)
  qed
  have e: "e = ValueError"
    if "get_invoice_type T to_str invoice = Inl e \<or> get_payment_terms P to_str invoice = Inl e" for e
    using that
    by (auto simp: get_invoice_type_def get_payment_terms_def split: sum.splits
        dest: enum_call_error)
  show ?thesis
    using a b c d e by (simp add: get_type_def)
qed

theorem invoice_labels_by_enum_lookup_witness:
  "int (invoice_type sample_invoice) \<in> snd ` set sample_enum
   \<and> get_type sample_enum fst sample_invoice = Inr ''QUOTE''
   \<and> int (payment_terms sample_invoice) \<notin> snd ` set sample_enum
   \<and> get_payment_terms sample_enum fst sample_invoice = Inl ValueError"
proof -
  have a: "int (invoice_type sample_invoice) \<in> snd ` set sample_enum"
    by (simp add: sample_invoice_def sample_enum_def)
  have b: "int (payment_terms sample_invoice) \<notin> snd ` set sample_enum"
    by (simp add: sample_invoice_def sample_enum_def)
  have c: "get_invoice_type sample_enum fst sample_invoice = Inr ''QUOTE''"
    by (simp add: get_invoice_type_def enum_call_def sample_invoice_def sample_enum_def)
  from invoice_labels_by_enum_lookup [of sample_enum fst sample_invoice sample_enum] a b c
  show ?thesis
    by simp
qed

section \<open>The JavaScript fragment of a template\<close>

lemma js_fragment_filename_total:
  assumes "re (p @ ''admintools/(.*)'') n = Inr m1" and "re (p @ ''(.*)'') n = Inr m2"
  shows "\<exists>f. js_fragment_filename re n p = Inr f"
  using assms by (simp add: js_fragment_filename_def split: option.splits)

lemma get_javascripts_cases:
  assumes "js_fragment_filename re n p = Inr f"
  shows "get_javascripts re gt n p =
     (case gt f of Inr t \<Rightarrow> Inr [f]
      | Inl e \<Rightarrow> if e = TemplateDoesNotExist then Inr [] else Inl e)"
  using assms by (simp add: get_javascripts_def split: sum.splits)

lemma re_match_literal:
  assumes "\<not> list_ex re_special lit"
  shows "re_match (lit @ ''(.*)'') s =
     (if take (length lit) s = lit
      then Inr (Some (takeWhile (\<lambda>c. c \<noteq> CHR 0x0A) (drop (length lit) s)))
      else Inr None)"
  using assms by (simp add: re_match_def Let_def)

lemma re_admin_page: "re_match ('''' @ ''admintools/(.*)'') ''page.html'' = Inr None"
  by code_simp

lemma re_any_page: "re_match ('''' @ ''(.*)'') ''page.html'' = Inr (Some ''page.html'')"
  by code_simp

lemma page_filename: "js_fragment_filename re_match ''page.html'' '''' = Inr ''fragments/js/page.html''"
  by (simp only: js_fragment_filename_def re_admin_page re_any_page) simp

lemma re_admin_tools:
  "re_match (''admin/'' @ ''admintools/(.*)'') ''admin/tools.html'' = Inr None"
  by code_simp

lemma re_prefix_tools:
  "re_match (''admin/'' @ ''(.*)'') ''admin/tools.html'' = Inr (Some ''tools.html'')"
  by code_simp

lemma tools_filename:
  "js_fragment_filename re_match ''admin/tools.html'' ''admin/'' = Inr ''admin/fragments/js/tools.html''"
  by (simp only: js_fragment_filename_def re_admin_tools re_prefix_tools) simp

lemma re_admin_admintools:
  "re_match (''admin/'' @ ''admintools/(.*)'') ''admin/admintools/tools.html'' = Inr (Some ''tools.html'')"
  by code_simp

lemma admintools_filename:
  "js_fragment_filename re_match ''admin/admintools/tools.html'' ''admin/''
     = Inr ''admin/admintools/fragments/js/tools.html''"
  by (simp only: js_fragment_filename_def re_admin_admintools) simp

lemma admin_path_only_if_admin_branch:
  assumes "js_fragment_filename re ''admin/tools.html'' ''admin/''
             = Inr ''admin/admintools/fragments/js/tools.html''"
  shows "re (''admin/'' @ ''admintools/(.*)'') ''admin/tools.html'' = Inr (Some ''tools.html'')"
  using assms
  by (auto simp: js_fragment_filename_def split: sum.splits option.splits)

text \<open>
  C10. For every template name and prefix, and whatever \<open>re.match\<close> and the loader do, a
  list that \<open>get_javascripts\<close> returns has at most one element, the derived file name.
  The loader is asked about that one file name only: two loaders that agree on it give
  the same result. When \<open>re.match\<close> raises on neither pattern, a file name is derived
  and the result is the empty list, the singleton of that name, or the loader's error
  other than \<open>TemplateDoesNotExist\<close>.
\<close>

theorem get_javascripts_at_most_one:
  "(\<forall>js. get_javascripts re gt n p = Inr js \<longrightarrow>
       length js \<le> 1 \<and> (js = [] \<or> js_fragment_filename re n p = Inr (hd js)))
   \<and> (\<forall>f gt'. js_fragment_filename re n p = Inr f \<and> gt' f = gt f \<longrightarrow>
       get_javascripts re gt' n p = get_javascripts re gt n p)
   \<and> (\<forall>m1 m2. re (p @ ''admintools/(.*)'') n = Inr m1 \<and> re (p @ ''(.*)'') n = Inr m2 \<longrightarrow>
       (\<exists>f. js_fragment_filename re n p = Inr f
          \<and> (get_javascripts re gt n p = Inr [] \<or> get_javascripts re gt n p = Inr [f]
              \<or> (\<exists>e. e \<noteq> TemplateDoesNotExist \<and> gt f = Inl e
                    \<and> get_javascripts re gt n p = Inl e))))"
proof -
  have one: "length js \<le> 1 \<and> (js = [] \<or> js_fragment_filename re n p = Inr (hd js))"
    if "get_javascripts re gt n p = Inr js" for js
    using that by (auto simp: get_javascripts_def split: sum.splits if_splits)
  have probe: "get_javascripts re gt' n p = get_javascripts re gt n p"
    if "js_fragment_filename re n p = Inr f \<and> gt' f = gt f" for f gt'
    using that by (simp add: get_javascripts_cases split: sum.splits)
  have returns: "\<exists>f. js_fragment_filename re n p = Inr f
          \<and> (get_javascripts re gt n p = Inr [] \<or> get_javascripts re gt n p = Inr [f]
              \<or> (\<exists>e. e \<noteq> TemplateDoesNotExist \<and> gt f = Inl e
                    \<and> get_javascripts re gt n p = Inl e))"
    if "re (p @ ''admintools/(.*)'') n = Inr m1 \<and> re (p @ ''(.*)'') n = Inr m2" for m1 m2
  proof -
    from that obtain f where f: "js_fragment_filename re n p = Inr f"
      using js_fragment_filename_total by blast
    then show ?thesis
      by (auto simp: get_javascripts_cases split: sum.splits)
  qed
  from one probe returns show ?thesis
    by blast
qed

theorem get_javascripts_at_most_one_witness:
  "re_match ('''' @ ''admintools/(.*)'') ''page.html'' = Inr None
   \<and> re_match ('''' @ ''(.*)'') ''page.html'' = Inr (Some ''page.html'')
   \<and> js_fragment_filename re_match ''page.html'' '''' = Inr ''fragments/js/page.html''
   \<and> get_javascripts re_match sample_loader ''page.html'' '''' = Inr [''fragments/js/page.html'']
   \<and> length [''fragments/js/page.html''] \<le> 1"
proof -
  have g: "get_javascripts re_match sample_loader ''page.html'' '''' = Inr [''fragments/js/page.html'']"
    by (simp add: get_javascripts_cases [OF page_filename] sample_loader_def)
  from get_javascripts_at_most_one [of re_match sample_loader "''page.html''" "''''"]
    g re_admin_page re_any_page page_filename
  show ?thesis
    by simp
qed

text \<open>
  C6. With an empty prefix, \<open>get_javascripts\<close> on \<open>page.html\<close> gives
  \<open>[fragments/js/page.html]\<close> when the loader finds that template and the empty list when
  the loader raises \<open>TemplateDoesNotExist\<close>. With the prefix \<open>admin/\<close> and the name
  \<open>admin/tools.html\<close>, the derived name is \<open>admin/admintools/fragments/js/tools.html\<close>
  only if the admin pattern matches (whatever \<open>re.match\<close> does); under Python's matching
  it does not match, and the derived name is \<open>admin/fragments/js/tools.html\<close>, while
  \<open>admin/admintools/tools.html\<close> takes the admin branch. A missing template gives the
  empty list for every input.
\<close>

theorem get_javascripts_literal_inputs:
  "(gt ''fragments/js/page.html'' = Inr t \<longrightarrow>
      get_javascripts re_match gt ''page.html'' '''' = Inr [''fragments/js/page.html''])
   \<and> (gt ''fragments/js/page.html'' = Inl TemplateDoesNotExist \<longrightarrow>
      get_javascripts re_match gt ''page.html'' '''' = Inr [])
   \<and> (\<forall>re. js_fragment_filename re ''admin/tools.html'' ''admin/''
             = Inr ''admin/admintools/fragments/js/tools.html'' \<longrightarrow>
         re (''admin/'' @ ''admintools/(.*)'') ''admin/tools.html'' = Inr (Some ''tools.html''))
   \<and> re_match (''admin/'' @ ''admintools/(.*)'') ''admin/tools.html'' = Inr None
   \<and> js_fragment_filename re_match ''admin/tools.html'' ''admin/''
        = Inr ''admin/fragments/js/tools.html''
   \<and> js_fragment_filename re_match ''admin/admintools/tools.html'' ''admin/''
        = Inr ''admin/admintools/fragments/js/tools.html''
   \<and> (\<forall>re n p f. js_fragment_filename re n p = Inr f \<and> gt f = Inl TemplateDoesNotExist \<longrightarrow>
         get_javascripts re gt n p = Inr [])"
  using page_filename tools_filename admintools_filename re_admin_tools
    admin_path_only_if_admin_branch
  by (simp add: get_javascripts_cases)

theorem get_javascripts_literal_inputs_witness:
  "sample_loader ''fragments/js/page.html'' = Inr ()
   \<and> get_javascripts re_match sample_loader ''page.html'' '''' = Inr [''fragments/js/page.html'']
   \<and> sample_loader ''admin/fragments/js/tools.html'' = Inl TemplateDoesNotExist
   \<and> js_fragment_filename re_match ''admin/tools.html'' ''admin/''
        = Inr ''admin/fragments/js/tools.html''
   \<and> get_javascripts re_match sample_loader ''admin/tools.html'' ''admin/'' = Inr []"
proof -
  have a: "sample_loader ''fragments/js/page.html'' = Inr ()"
    and b: "sample_loader ''admin/fragments/js/tools.html'' = Inl TemplateDoesNotExist"
    by (simp_all add: sample_loader_def)
  from get_javascripts_literal_inputs [of sample_loader "()"] a b tools_filename
  show ?thesis
    by simp
qed

end
